theory Spec2Isabelle
  imports Main "HOL-Library.Multiset"
begin

section \<open>barman.clients.cloud\_compression\<close>

text \<open>
  Byte strings and text are both lists of characters.  A compression token is what the
  callers pass as \<open>compression\<close>: Python's \<open>None\<close> or a \<open>str\<close>.
\<close>

type_synonym bytes = string

type_synonym token = "string option"

text \<open>The two exceptions the module raises itself.\<close>

datatype error = ValueError string | SystemExit string

text \<open>
  The third-party codecs are external: each module is a pair of whole-stream functions.
  \<open>snappy\<close>, \<open>zstandard\<close> and \<open>lz4.frame\<close> are optional modules, \<open>None\<close> when the
  import fails; \<open>gzip\<close> and \<open>bz2\<close> belong to the standard library and are always there.
  Failures raised inside a codec are outside this model.
\<close>

record codec =
  encode :: "bytes \<Rightarrow> bytes"
  decode :: "bytes \<Rightarrow> bytes"

record libs =
  snappy :: "codec option"
  zstandard :: "codec option"
  lz4_frame :: "codec option"
  gzip :: codec
  bz2 :: codec

datatype algorithm = Snappy | Zstd | Lz4 | Gzip | Bzip2

text \<open>What a call does to the world outside it: imports attempted and codec runs.\<close>

datatype lib_call = Import algorithm | Compress algorithm | Decompress algorithm

text \<open>\<^verbatim>\<open>"%s" % compression\<close> for a token.\<close>

fun py_str :: "token \<Rightarrow> string" where
  "py_str None = ''None''"
| "py_str (Some s) = s"

definition try_import_snappy :: "libs \<Rightarrow> error + codec" where
  "try_import_snappy L =
     (case snappy L of
        None \<Rightarrow> Inl (SystemExit ''Missing required python module: python-snappy'')
      | Some m \<Rightarrow> Inr m)"

definition try_import_zstandard :: "libs \<Rightarrow> error + codec" where
  "try_import_zstandard L =
     (case zstandard L of
        None \<Rightarrow> Inl (SystemExit ''Missing required python module: python-snappy'')
      | Some m \<Rightarrow> Inr m)"

definition try_import_lz4 :: "libs \<Rightarrow> error + codec" where
  "try_import_lz4 L =
     (case lz4_frame L of
        None \<Rightarrow> Inl (SystemExit ''Missing required python module: lz4'')
      | Some m \<Rightarrow> Inr m)"

text \<open>
  The three chunked compressors.  Each constructor imports its module first, so it fails
  with \<open>SystemExit\<close> when the module is missing; the object keeps the module's codec.
\<close>

datatype ChunkedCompressor =
    SnappyCompressor codec
  | ZstdCompressor codec
  | LZ4Compressor codec

definition new_SnappyCompressor :: "libs \<Rightarrow> error + ChunkedCompressor" where
  "new_SnappyCompressor L =
     (case try_import_snappy L of Inl e \<Rightarrow> Inl e | Inr m \<Rightarrow> Inr (SnappyCompressor m))"

definition new_ZstdCompressor :: "libs \<Rightarrow> error + ChunkedCompressor" where
  "new_ZstdCompressor L =
     (case try_import_zstandard L of Inl e \<Rightarrow> Inl e | Inr m \<Rightarrow> Inr (ZstdCompressor m))"

definition new_LZ4Compressor :: "libs \<Rightarrow> error + ChunkedCompressor" where
  "new_LZ4Compressor L =
     (case try_import_lz4 L of Inl e \<Rightarrow> Inl e | Inr m \<Rightarrow> Inr (LZ4Compressor m))"

text \<open>\<open>get_compressor\<close>: the result \<open>Inr None\<close> is Python's \<open>return None\<close>.\<close>

definition get_compressor :: "libs \<Rightarrow> token \<Rightarrow> error + ChunkedCompressor option" where
  "get_compressor L compression =
     (if compression = Some ''snappy'' then
        (case new_SnappyCompressor L of Inl e \<Rightarrow> Inl e | Inr c \<Rightarrow> Inr (Some c))
      else if compression = Some ''zstd'' then
        (case new_ZstdCompressor L of Inl e \<Rightarrow> Inl e | Inr c \<Rightarrow> Inr (Some c))
      else if compression = Some ''lz4'' then
        (case new_LZ4Compressor L of Inl e \<Rightarrow> Inl e | Inr c \<Rightarrow> Inr (Some c))
      else Inr None)"

text \<open>
  \<open>compress wal_file compression\<close>.  The result is the list of library calls made, what
  is left unread of \<open>wal_file\<close>, and either the raised error or the content of the returned
  in-memory file (rewound to its start).
\<close>

definition compress :: "libs \<Rightarrow> bytes \<Rightarrow> token \<Rightarrow> lib_call list \<times> bytes \<times> (error + bytes)" where
  "compress L wal_file compression =
     (if compression = Some ''snappy'' then
        (case try_import_snappy L of
           Inl e \<Rightarrow> ([Import Snappy], wal_file, Inl e)
         | Inr m \<Rightarrow> ([Import Snappy, Compress Snappy], [], Inr (encode m wal_file)))
      else if compression = Some ''zstd'' then
        (case try_import_zstandard L of
           Inl e \<Rightarrow> ([Import Zstd], wal_file, Inl e)
         | Inr m \<Rightarrow> ([Import Zstd, Compress Zstd], [], Inr (encode m wal_file)))
      else if compression = Some ''lz4'' then
        (case try_import_lz4 L of
           Inl e \<Rightarrow> ([Import Lz4], wal_file, Inl e)
         | Inr m \<Rightarrow> ([Import Lz4, Compress Lz4], [], Inr (encode m wal_file)))
      else if compression = Some ''gzip'' then
        ([Compress Gzip], [], Inr (encode (gzip L) wal_file))
      else if compression = Some ''bzip2'' then
        ([Compress Bzip2], [], Inr (encode (bz2 L) wal_file))
      else
        ([], wal_file, Inl (ValueError (''Unknown compression type: '' @ py_str compression))))"

text \<open>
  \<open>get_streaming_tar_mode mode compression\<close>: \<^verbatim>\<open>"%s|" % mode\<close> or
  \<^verbatim>\<open>"%s|%s" % (mode, compression)\<close>.
\<close>

definition get_streaming_tar_mode :: "string \<Rightarrow> token \<Rightarrow> string" where
  "get_streaming_tar_mode mode compression =
     (if compression \<in> set [Some ''snappy'', Some ''zstd'', Some ''lz4''] \<or> compression = None
      then mode @ ''|''
      else mode @ ''|'' @ py_str compression)"

text \<open>
  A destination is a file-like object opened for writing: its content and its current
  position.  A write replaces the bytes from the position on, pads with zero bytes when
  the position lies beyond the end, and moves the position past what it wrote; a copy of
  no bytes writes nothing.
\<close>

record file_like =
  content :: bytes
  position :: nat

definition write_file :: "bytes \<Rightarrow> file_like \<Rightarrow> file_like" where
  "write_file d f =
     (if d = [] then f
      else \<lparr>content =
              take (position f) (content f)
              @ replicate (position f - length (content f)) (CHR 0x00)
              @ d
              @ drop (position f + length d) (content f),
            position = position f + length d\<rparr>)"

text \<open>
  \<open>decompress_to_file blob dest_file compression\<close>.  The result is the list of library
  calls made, what is left unread of \<open>blob\<close>, \<open>dest_file\<close> afterwards, and the raised
  error if there is one (\<open>None\<close>: the function returned).
\<close>

definition decompress_to_file ::
    "libs \<Rightarrow> bytes \<Rightarrow> file_like \<Rightarrow> token
      \<Rightarrow> lib_call list \<times> bytes \<times> file_like \<times> error option" where
  "decompress_to_file L blob dest_file compression =
     (if compression = Some ''snappy'' then
        (case try_import_snappy L of
           Inl e \<Rightarrow> ([Import Snappy], blob, dest_file, Some e)
         | Inr m \<Rightarrow>
             ([Import Snappy, Decompress Snappy], [],
              write_file (decode m blob) dest_file, None))
      else if compression = Some ''zstd'' then
        (case try_import_zstandard L of
           Inl e \<Rightarrow> ([Import Zstd], blob, dest_file, Some e)
         | Inr m \<Rightarrow>
             ([Import Zstd, Decompress Zstd], [],
              write_file (decode m blob) dest_file, None))
      else if compression = Some ''lz4'' then
        (case try_import_lz4 L of
           Inl e \<Rightarrow> ([Import Lz4], blob, dest_file, Some e)
         | Inr m \<Rightarrow>
             ([Import Lz4, Decompress Lz4], [],
              write_file (decode m blob) dest_file, None))
      else if compression = Some ''gzip'' then
        ([Decompress Gzip], [], write_file (decode (gzip L) blob) dest_file, None)
      else if compression = Some ''bzip2'' then
        ([Decompress Bzip2], [], write_file (decode (bz2 L) blob) dest_file, None)
      else
        ([], blob, dest_file,
         Some (ValueError (''Unknown compression type: '' @ py_str compression))))"

text \<open>The five tokens of the whole-buffer helpers, and the three of the chunked path.\<close>

definition supported_tokens :: "token set" where
  "supported_tokens =
     {Some ''gzip'', Some ''bzip2'', Some ''lz4'', Some ''zstd'', Some ''snappy''}"

definition chunked_tokens :: "token set" where
  "chunked_tokens = {Some ''snappy'', Some ''zstd'', Some ''lz4''}"

text \<open>A codec that copies its input, and an installation with no optional module.\<close>

definition identity_codec :: codec where
  "identity_codec = \<lparr>encode = (\<lambda>b. b), decode = (\<lambda>b. b)\<rparr>"

definition bare_libs :: libs where
  "bare_libs =
     \<lparr>snappy = None, zstandard = None, lz4_frame = None,
      gzip = identity_codec, bz2 = identity_codec\<rparr>"

definition full_libs :: libs where
  "full_libs =
     \<lparr>snappy = Some identity_codec, zstandard = Some identity_codec,
      lz4_frame = Some identity_codec, gzip = identity_codec, bz2 = identity_codec\<rparr>"

text \<open>A destination that holds three bytes already and stands at its start.\<close>

definition old_file :: file_like where
  "old_file = \<lparr>content = ''old'', position = 0\<rparr>"


section \<open>The asynchronous upload engine of barman.cloud.CloudInterface\<close>

text \<open>
  \<open>tests/test_cloud.py\<close> drives the engine of \<open>CloudInterface\<close>; the module that
  defines the class, \<open>barman/cloud.py\<close>, is not among the sources.  The test's data and
  its patched collaborators are translated from the test; each engine operation is
  modelled from the specification and says so.
\<close>

type_synonym part_descriptor = "(string \<times> string) list"

text \<open>A message of the result queue, as \<open>test_retrieve_results\<close> builds it.\<close>

record part_result =
  key :: string
  part_number :: int
  end_time :: int
  part :: part_descriptor

text \<open>
  The parts ledger \<open>parts_db\<close> maps a key to its parts, each kept with the part number
  it was reported under; \<open>upload_stats\<close> gives, for a key, the end time recorded for each
  part number.
\<close>

type_synonym parts_ledger = "string \<rightharpoonup> (int \<times> part_descriptor) list"

record cloud_interface =
  result_queue :: "part_result list"
  parts_db :: parts_ledger
  upload_stats :: "string \<Rightarrow> int \<rightharpoonup> int"

definition entry :: "parts_ledger \<Rightarrow> string \<Rightarrow> (int \<times> part_descriptor) list" where
  "entry db k = (case db k of None \<Rightarrow> [] | Some ps \<Rightarrow> ps)"

text \<open>
  A new interface, as \<open>test_uploader_minimal\<close> finds it: the ledger is empty, and
  nothing has been reported.
\<close>

definition new_interface :: cloud_interface where
  "new_interface =
     \<lparr>result_queue = [], parts_db = Map.empty, upload_stats = (\<lambda>k. Map.empty)\<rparr>"

subsection \<open>Draining the result queue\<close>

text \<open>
  Modelled from the spec: \<open>CloudInterface._retrieve_results\<close> (\<open>retrieveResults\<close>),
  defined in \<open>barman/cloud.py\<close>, which is missing.  Every item that is in the result
  queue is taken, in arrival order; its part descriptor is inserted into the ledger
  entry of its key so that the entry stays sorted ascending by part number (insertion in
  place), and its end time is recorded under its key and part number.  With an empty
  queue nothing changes.
\<close>

definition insert_part :: "part_result \<Rightarrow> parts_ledger \<Rightarrow> parts_ledger" where
  "insert_part r db =
     db(key r \<mapsto> insort_key fst (part_number r, part r) (entry db (key r)))"

definition record_end_time ::
    "part_result \<Rightarrow> (string \<Rightarrow> int \<rightharpoonup> int) \<Rightarrow> (string \<Rightarrow> int \<rightharpoonup> int)" where
  "record_end_time r st = st(key r := (st (key r))(part_number r \<mapsto> end_time r))"

definition retrieve_results :: "cloud_interface \<Rightarrow> cloud_interface" where
  "retrieve_results s =
     s\<lparr>result_queue := [],
       parts_db := fold insert_part (result_queue s) (parts_db s),
       upload_stats := fold record_end_time (result_queue s) (upload_stats s)\<rparr>"

text \<open>
  Modelled from the spec: the worker side of the result channel, in the missing
  \<open>barman/cloud.py\<close>.  Workers post their part results to the result channel, in the
  order in which they finish.
\<close>

definition post_results :: "part_result list \<Rightarrow> cloud_interface \<Rightarrow> cloud_interface" where
  "post_results q s = s\<lparr>result_queue := result_queue s @ q\<rparr>"

text \<open>
  The life of a ledger: results arrive and are drained, again and again.  Each element
  of the list is what arrives before one call of \<open>retrieve_results\<close>.
\<close>

fun drains :: "part_result list list \<Rightarrow> cloud_interface \<Rightarrow> cloud_interface" where
  "drains [] s = s"
| "drains (q # qs) s = drains qs (retrieve_results (post_results q s))"

text \<open>The parts that a sequence of results holds for one key, in arrival order.\<close>

definition drained :: "part_result list \<Rightarrow> string \<Rightarrow> (int \<times> part_descriptor) list" where
  "drained q k = map (\<lambda>r. (part_number r, part r)) (filter (\<lambda>r. key r = k) q)"

text \<open>
  The data of \<open>test_retrieve_results\<close>: four results, the parts of \<open>test/file\<close> arriving
  as 2, 1, 3, and the ledger that the test expects after the drain.  Times are seconds
  after 17:00:00 of the test's day.  The same results are also given as two arrivals,
  the first two and the last two.
\<close>

definition etag_part :: "string \<Rightarrow> string \<Rightarrow> part_descriptor" where
  "etag_part etag n = [(''ETag'', etag), (''PartNumber'', n)]"

definition test_results :: "part_result list" where
  "test_results =
     [\<lparr>key = ''test/file'', part_number = 2, end_time = 140,
       part = etag_part ''becb2f30c11b6a2b5c069f3c8a5b798c'' ''2''\<rparr>,
      \<lparr>key = ''test/file'', part_number = 1, end_time = 80,
       part = etag_part ''27960aa8b7b851eb0277f0f3f5d15d68'' ''1''\<rparr>,
      \<lparr>key = ''test/file'', part_number = 3, end_time = 200,
       part = etag_part ''724a0685c99b457d4ddd93814c2d3e2b'' ''3''\<rparr>,
      \<lparr>key = ''test/another_file'', part_number = 1, end_time = 320,
       part = etag_part ''89d4f0341d9091aa21ddf67d3b32c34a'' ''1''\<rparr>]"

definition expected_parts_db :: parts_ledger where
  "expected_parts_db =
     [''test/file'' \<mapsto>
        [(1, etag_part ''27960aa8b7b851eb0277f0f3f5d15d68'' ''1''),
         (2, etag_part ''becb2f30c11b6a2b5c069f3c8a5b798c'' ''2''),
         (3, etag_part ''724a0685c99b457d4ddd93814c2d3e2b'' ''3'')],
      ''test/another_file'' \<mapsto>
        [(1, etag_part ''89d4f0341d9091aa21ddf67d3b32c34a'' ''1'')]]"

definition first_results :: "part_result list" where
  "first_results =
     [\<lparr>key = ''test/file'', part_number = 2, end_time = 140,
       part = etag_part ''becb2f30c11b6a2b5c069f3c8a5b798c'' ''2''\<rparr>,
      \<lparr>key = ''test/file'', part_number = 1, end_time = 80,
       part = etag_part ''27960aa8b7b851eb0277f0f3f5d15d68'' ''1''\<rparr>]"

definition later_results :: "part_result list" where
  "later_results =
     [\<lparr>key = ''test/file'', part_number = 3, end_time = 200,
       part = etag_part ''724a0685c99b457d4ddd93814c2d3e2b'' ''3''\<rparr>,
      \<lparr>key = ''test/another_file'', part_number = 1, end_time = 320,
       part = etag_part ''89d4f0341d9091aa21ddf67d3b32c34a'' ''1''\<rparr>]"

subsection \<open>The worker loop\<close>

text \<open>
  A worker's view: the messages it has received from the job channel, the number of
  acknowledgements (\<open>task_done\<close>) it has given, the jobs it has handed to the execution
  function, the error channel, and whatever else execution acts on.  A message is a job
  or the stop sentinel \<open>None\<close>.  Execution is a parameter, as it is patched in
  \<open>test_worker_process_main\<close>: it returns the world it leaves behind and the message
  of the exception it raised, if it raised one.
\<close>

datatype 'a run = Terminated 'a | Blocked 'a

record ('j, 'w) worker =
  received :: "'j option list"
  acknowledged :: nat
  executed :: "'j list"
  errors_queue :: "string list"
  world :: 'w

type_synonym ('j, 'w) execute_job = "'j \<Rightarrow> int \<Rightarrow> 'w \<Rightarrow> 'w \<times> string option"

text \<open>
  Modelled from the spec: \<open>CloudInterface._worker_process_main\<close> (the worker loop),
  defined in \<open>barman/cloud.py\<close>, which is missing.  The loop receives from the job
  channel, blocking when it is empty; on the stop sentinel it acknowledges and
  terminates; on a job it executes the job inside a blanket guard, posts the message of
  any error to the error channel, acknowledges the job whether execution succeeded or
  failed, and goes on.  The second argument is the worker's index, the third the
  content of the job channel; the result pairs what is left in the channel with the
  worker's view.
\<close>

fun worker_process_main ::
    "('j, 'w) execute_job \<Rightarrow> int \<Rightarrow> 'j option list \<Rightarrow> ('j, 'w) worker
      \<Rightarrow> ('j option list \<times> ('j, 'w) worker) run" where
  "worker_process_main exec n [] s = Blocked ([], s)"
| "worker_process_main exec n (None # rest) s =
     Terminated (rest, s\<lparr>received := received s @ [None],
                          acknowledged := Suc (acknowledged s)\<rparr>)"
| "worker_process_main exec n (Some j # rest) s =
     (case exec j n (world s) of
        (w, raised) \<Rightarrow>
          worker_process_main exec n rest
            (s\<lparr>received := received s @ [Some j],
               acknowledged := Suc (acknowledged s),
               executed := executed s @ [j],
               errors_queue :=
                 (case raised of None \<Rightarrow> errors_queue s
                  | Some msg \<Rightarrow> errors_queue s @ [msg]),
               world := w\<rparr>))"

text \<open>
  What executing a list of jobs one after the other leaves behind, and the messages of
  the executions that raise.
\<close>

fun world_after :: "('j, 'w) execute_job \<Rightarrow> int \<Rightarrow> 'j list \<Rightarrow> 'w \<Rightarrow> 'w" where
  "world_after exec n [] w = w"
| "world_after exec n (j # js) w = world_after exec n js (fst (exec j n w))"

fun raised_messages :: "('j, 'w) execute_job \<Rightarrow> int \<Rightarrow> 'j list \<Rightarrow> 'w \<Rightarrow> string list" where
  "raised_messages exec n [] w = []"
| "raised_messages exec n (j # js) w =
     (case exec j n w of
        (w', None) \<Rightarrow> raised_messages exec n js w'
      | (w', Some msg) \<Rightarrow> msg # raised_messages exec n js w')"

text \<open>
  \<open>test_worker_process_main\<close>: three jobs, each a \<open>job_id\<close> and a \<open>job_type\<close>, and the
  stop marker; the second patched execution raises for job 2.
\<close>

type_synonym test_job = "int \<times> string"

definition job_collection :: "test_job option list" where
  "job_collection =
     [Some (1, ''upload_part''), Some (2, ''upload_part''), Some (3, ''upload_part''), None]"

definition execute_mock :: "(test_job, unit) execute_job" where
  "execute_mock job process_number w =
     (if fst job = 2 then (w, Some ''Something is gone wrong'') else (w, None))"

definition idle_worker :: "(test_job, unit) worker" where
  "idle_worker =
     \<lparr>received = [], acknowledged = 0, executed = [], errors_queue = [], world = ()\<rparr>"


section \<open>Properties of the compression helpers\<close>

text \<open>
  Claim C8.  For every token outside gzip, bzip2, lz4, zstd and snappy, \<open>compress\<close> and
  \<open>decompress_to_file\<close> both raise \<open>ValueError\<close> with the message
  \<open>Unknown compression type:\<close> followed by the token; no module is imported, no codec
  runs, the source is left unread and the destination is left as it was.
\<close>

theorem unknown_token_rejected:
  assumes "compression \<notin> supported_tokens"
  shows "compress L wal_file compression =
           ([], wal_file, Inl (ValueError (''Unknown compression type: '' @ py_str compression)))
       \<and> decompress_to_file L blob dest_file compression =
           ([], blob, dest_file,
            Some (ValueError (''Unknown compression type: '' @ py_str compression)))"
  using assms by (simp add: compress_def decompress_to_file_def supported_tokens_def)

theorem unknown_token_rejected_witness:
  "Some ''xz'' \<notin> supported_tokens
   \<and> compress full_libs ''wal'' (Some ''xz'') =
       ([], ''wal'', Inl (ValueError ''Unknown compression type: xz''))
   \<and> decompress_to_file full_libs ''blob'' old_file (Some ''xz'') =
       ([], ''blob'', old_file, Some (ValueError ''Unknown compression type: xz''))
   \<and> None \<notin> supported_tokens
   \<and> compress full_libs ''wal'' None =
       ([], ''wal'', Inl (ValueError ''Unknown compression type: None''))"
proof -
  have xz: "Some ''xz'' \<notin> supported_tokens"
    by (simp add: supported_tokens_def)
  have none: "None \<notin> supported_tokens"
    by (simp add: supported_tokens_def)
  show ?thesis
    using xz none
      unknown_token_rejected [OF xz, of full_libs "''wal''" "''blob''" old_file]
      unknown_token_rejected [OF none, of full_libs "''wal''" "''blob''" old_file]
    by simp
qed

text \<open>
  Claim C9.  For every mode string, \<open>get_streaming_tar_mode\<close> returns the mode followed
  by a bar alone when the token is snappy, zstd, lz4 or \<open>None\<close>, and the mode, the bar and
  the token itself for every other token, gzip and bzip2 among them.
\<close>

theorem streaming_tar_mode:
  "(compression \<in> chunked_tokens \<or> compression = None
      \<longrightarrow> get_streaming_tar_mode mode compression = mode @ ''|'')
   \<and> (\<forall>s. compression = Some s \<and> compression \<notin> chunked_tokens
      \<longrightarrow> get_streaming_tar_mode mode compression = mode @ ''|'' @ s)
   \<and> get_streaming_tar_mode mode (Some ''gzip'') = mode @ ''|gzip''
   \<and> get_streaming_tar_mode mode (Some ''bzip2'') = mode @ ''|bzip2''"
  by (auto simp add: get_streaming_tar_mode_def chunked_tokens_def)

theorem streaming_tar_mode_witness:
  "get_streaming_tar_mode ''r'' (Some ''zstd'') = ''r|''
   \<and> get_streaming_tar_mode ''w'' None = ''w|''
   \<and> get_streaming_tar_mode ''r'' (Some ''xz'') = ''r|xz''
   \<and> get_streaming_tar_mode ''w'' (Some ''bzip2'') = ''w|bzip2''"
proof -
  have a: "Some ''zstd'' \<in> chunked_tokens"
    by (simp add: chunked_tokens_def)
  have b: "Some ''xz'' \<notin> chunked_tokens"
    by (simp add: chunked_tokens_def)
  show ?thesis
    using a b
      streaming_tar_mode [of "Some ''zstd''" "''r''"]
      streaming_tar_mode [of None "''w''"]
      streaming_tar_mode [of "Some ''xz''" "''r''"]
    by simp
qed

text \<open>
  Claim C10.  For every token other than snappy, zstd and lz4 (gzip, bzip2, \<open>None\<close> and
  any unknown string), \<open>get_compressor\<close> returns \<open>None\<close> and raises nothing, whatever
  modules are installed; a compressor object comes back for those three tokens only,
  and with the module installed each of them gives the compressor of its own class.
\<close>

theorem get_compressor_tokens:
  "(compression \<notin> chunked_tokens \<longrightarrow> get_compressor L compression = Inr None)
   \<and> (\<forall>c. get_compressor L compression = Inr (Some c) \<longrightarrow> compression \<in> chunked_tokens)
   \<and> (\<forall>m. snappy L = Some m
        \<longrightarrow> get_compressor L (Some ''snappy'') = Inr (Some (SnappyCompressor m)))
   \<and> (\<forall>m. zstandard L = Some m
        \<longrightarrow> get_compressor L (Some ''zstd'') = Inr (Some (ZstdCompressor m)))
   \<and> (\<forall>m. lz4_frame L = Some m
        \<longrightarrow> get_compressor L (Some ''lz4'') = Inr (Some (LZ4Compressor m)))"
  by (auto simp add: get_compressor_def chunked_tokens_def new_SnappyCompressor_def
      new_ZstdCompressor_def new_LZ4Compressor_def try_import_snappy_def
      try_import_zstandard_def try_import_lz4_def split: if_splits sum.splits option.splits)

theorem get_compressor_tokens_witness:
  "get_compressor bare_libs (Some ''gzip'') = Inr None
   \<and> get_compressor bare_libs (Some ''bzip2'') = Inr None
   \<and> get_compressor bare_libs None = Inr None
   \<and> get_compressor bare_libs (Some ''xz'') = Inr None
   \<and> get_compressor full_libs (Some ''lz4'') = Inr (Some (LZ4Compressor identity_codec))"
proof -
  have out: "Some ''gzip'' \<notin> chunked_tokens" "Some ''bzip2'' \<notin> chunked_tokens"
    "None \<notin> chunked_tokens" "Some ''xz'' \<notin> chunked_tokens"
    by (simp_all add: chunked_tokens_def)
  have lz4: "lz4_frame full_libs = Some identity_codec"
    by (simp add: full_libs_def)
  show ?thesis
    using out lz4
      get_compressor_tokens [of "Some ''gzip''" bare_libs]
      get_compressor_tokens [of "Some ''bzip2''" bare_libs]
      get_compressor_tokens [of None bare_libs]
      get_compressor_tokens [of "Some ''xz''" bare_libs]
      get_compressor_tokens [of "Some ''lz4''" full_libs]
    by simp
qed

section \<open>Properties of the upload engine\<close>

subsection \<open>The ledger after a drain\<close>

lemma entry_insert_part:
  "entry (insert_part r db) k =
     (if k = key r then insort_key fst (part_number r, part r) (entry db k) else entry db k)"
  by (simp add: insert_part_def entry_def)

lemma sorted_fold_insert_part:
  "sorted (map fst (entry db k)) \<Longrightarrow> sorted (map fst (entry (fold insert_part q db) k))"
proof (induction q arbitrary: db)
  case Nil
  then show ?case by simp
next
  case (Cons r q)
  have "sorted (map fst (entry (insert_part r db) k))"
    using Cons.prems by (auto simp add: entry_insert_part sorted_insort_key)
  then show ?case using Cons.IH by simp
qed

lemma mset_fold_insert_part:
  "mset (entry (fold insert_part q db) k) = mset (entry db k) + mset (drained q k)"
proof (induction q arbitrary: db)
  case Nil
  then show ?case by (simp add: drained_def)
next
  case (Cons r q)
  have "mset (entry (fold insert_part (r # q) db) k)
        = mset (entry (insert_part r db) k) + mset (drained q k)"
    using Cons.IH by simp
  also have "\<dots> = mset (entry db k) + mset (drained (r # q) k)"
    by (simp add: entry_insert_part drained_def)
  finally show ?case .
qed

lemma drained_append: "drained (a @ b) k = drained a k @ drained b k"
  by (simp add: drained_def)

lemma drain_posted:
  assumes "result_queue s = []"
  shows "result_queue (retrieve_results (post_results q s)) = []"
    and "parts_db (retrieve_results (post_results q s)) = fold insert_part q (parts_db s)"
  using assms by (simp_all add: retrieve_results_def post_results_def)

lemma result_queue_drains:
  "result_queue s = [] \<Longrightarrow> result_queue (drains qs s) = []"
  by (induction qs arbitrary: s) (simp_all add: drain_posted)

lemma sorted_drains:
  "sorted (map fst (entry (parts_db s) k))
   \<Longrightarrow> sorted (map fst (entry (parts_db (drains qs s)) k))"
proof (induction qs arbitrary: s)
  case Nil
  then show ?case by simp
next
  case (Cons q qs)
  have "sorted (map fst (entry (parts_db (retrieve_results (post_results q s))) k))"
    using Cons.prems
    by (simp add: retrieve_results_def post_results_def sorted_fold_insert_part)
  then show ?case using Cons.IH by simp
qed

lemma mset_drains:
  "result_queue s = [] \<Longrightarrow>
   mset (entry (parts_db (drains qs s)) k)
     = mset (entry (parts_db s) k) + mset (drained (concat qs) k)"
proof (induction qs arbitrary: s)
  case Nil
  then show ?case by (simp add: drained_def)
next
  case (Cons q qs)
  let ?s = "retrieve_results (post_results q s)"
  have "mset (entry (parts_db (drains (q # qs) s)) k)
        = mset (entry (parts_db ?s) k) + mset (drained (concat qs) k)"
    using Cons.IH [of ?s] Cons.prems by (simp add: drain_posted)
  also have "\<dots> = mset (entry (parts_db s) k) + mset (drained q k)
                  + mset (drained (concat qs) k)"
    using Cons.prems by (simp add: drain_posted mset_fold_insert_part)
  finally show ?case by (simp add: drained_append)
qed

lemma distinct_map_mset:
  assumes "mset xs = mset ys"
  shows "distinct (map f xs) = distinct (map f ys)"
proof -
  have "mset (map f xs) = mset (map f ys)"
    using assms by (metis mset_map)
  then show ?thesis by (rule mset_eq_imp_distinct_iff)
qed

text \<open>
  A list that is sorted by a key, holds no key twice and holds the elements of \<open>ys\<close> is
  \<open>ys\<close> sorted by that key.
\<close>

lemma sorted_distinct_is_sort_key:
  assumes "sorted (map f xs)" and "distinct (map f ys)" and "mset xs = mset ys"
  shows "xs = sort_key f ys"
proof -
  have dx: "distinct (map f xs)"
    using assms(2) distinct_map_mset [OF assms(3), of f] by simp
  have ds: "distinct (map f (sort_key f ys))"
    using assms(2) distinct_map_mset [of "sort_key f ys" ys f] by simp
  have "set xs = set ys"
    using assms(3) by (rule mset_eq_setD)
  then have st: "set xs = set (sort_key f ys)"
    by simp
  have inj: "inj_on f (set xs \<union> set (sort_key f ys))"
    using dx st by (simp add: distinct_map)
  show ?thesis
    by (rule map_sorted_distinct_set_unique [OF inj assms(1) dx _ ds st]) simp
qed

lemma test_results_split: "first_results @ later_results = test_results"
  by (simp add: first_results_def later_results_def test_results_def)

lemma test_results_distinct: "\<forall>k. distinct (map fst (drained test_results k))"
  by (simp add: drained_def test_results_def)

lemma drain_test_results:
  "parts_db (drains [test_results] new_interface) = expected_parts_db"
  by (simp add: retrieve_results_def post_results_def new_interface_def test_results_def
      insert_part_def entry_def expected_parts_db_def fun_upd_twist)

lemma drain_test_results_twice:
  "parts_db (drains [first_results, later_results] new_interface) = expected_parts_db"
  by (simp add: retrieve_results_def post_results_def new_interface_def first_results_def
      later_results_def insert_part_def entry_def expected_parts_db_def fun_upd_twist)

lemma expected_part_numbers: "map fst (entry expected_parts_db ''test/file'') = [1, 2, 3]"
  by (simp add: expected_parts_db_def entry_def)

lemma sorted_test_results:
  "sort_key fst (drained test_results ''test/file'') = entry expected_parts_db ''test/file''"
  by (simp add: expected_parts_db_def entry_def drained_def test_results_def)

text \<open>
  Claim C1.  Let part results arrive at a new interface in any order and be drained by
  any number of calls of \<open>retrieve_results\<close>, no part number being reported twice for
  one key (a part number identifies a part within its upload).  Then, after the last
  call returns, the ledger entry of each key is the sequence of the parts reported for
  that key sorted ascending by part number, and its part numbers are unique.
\<close>

theorem ledger_sorted_by_part_number:
  assumes "\<forall>k. distinct (map fst (drained (concat qs) k))"
  shows "\<forall>k. entry (parts_db (drains qs new_interface)) k
                = sort_key fst (drained (concat qs) k)
            \<and> sorted (map fst (entry (parts_db (drains qs new_interface)) k))
            \<and> distinct (map fst (entry (parts_db (drains qs new_interface)) k))"
proof
  fix k
  let ?e = "entry (parts_db (drains qs new_interface)) k"
  have q: "result_queue new_interface = []"
    by (simp add: new_interface_def)
  have e0: "entry (parts_db new_interface) k = []"
    by (simp add: new_interface_def entry_def)
  have s: "sorted (map fst ?e)"
    by (rule sorted_drains) (simp add: e0)
  have m: "mset ?e = mset (drained (concat qs) k)"
    using mset_drains [OF q, of qs k] by (simp add: e0)
  have d: "distinct (map fst (drained (concat qs) k))"
    using assms by simp
  have eq: "?e = sort_key fst (drained (concat qs) k)"
    by (rule sorted_distinct_is_sort_key [OF s d m])
  have "distinct (map fst ?e)"
    using d distinct_map_mset [OF m, of fst] by simp
  with eq s show "?e = sort_key fst (drained (concat qs) k) \<and> sorted (map fst ?e)
      \<and> distinct (map fst ?e)"
    by simp
qed

text \<open>
  On the data of \<open>test_retrieve_results\<close>, drained in one call as in the test or in two,
  the ledger is the one that the test expects, with the parts of \<open>test/file\<close> in the
  order 1, 2, 3.
\<close>

theorem ledger_sorted_by_part_number_witness:
  "parts_db (drains [test_results] new_interface) = expected_parts_db
   \<and> parts_db (drains [first_results, later_results] new_interface) = expected_parts_db
   \<and> entry expected_parts_db ''test/file'' = sort_key fst (drained test_results ''test/file'')
   \<and> sorted (map fst (entry expected_parts_db ''test/file''))
   \<and> distinct (map fst (entry expected_parts_db ''test/file''))
   \<and> map fst (entry expected_parts_db ''test/file'') = [1, 2, 3]"
proof -
  have h1: "\<forall>k. distinct (map fst (drained (concat [test_results]) k))"
    using test_results_distinct by simp
  have h2: "\<forall>k. distinct (map fst (drained (concat [first_results, later_results]) k))"
    using test_results_distinct by (simp add: test_results_split)
  note one = ledger_sorted_by_part_number [OF h1, THEN spec, of "''test/file''"]
  note two = ledger_sorted_by_part_number [OF h2, THEN spec, of "''test/file''"]
  show ?thesis
    using one two
    by (simp only: drain_test_results drain_test_results_twice expected_part_numbers
        sorted_test_results concat.simps append_Nil2 test_results_split)
qed

subsection \<open>The worker loop\<close>

lemma worker_run:
  "worker_process_main exec n (map Some js @ None # rest) s =
     Terminated (rest,
       s\<lparr>received := received s @ map Some js @ [None],
         acknowledged := acknowledged s + length js + 1,
         executed := executed s @ js,
         errors_queue := errors_queue s @ raised_messages exec n js (world s),
         world := world_after exec n js (world s)\<rparr>)"
proof (induction js arbitrary: s)
  case Nil
  then show ?case by simp
next
  case (Cons j js)
  obtain w r where e: "exec j n (world s) = (w, r)"
    by (cases "exec j n (world s)")
  show ?case
    by (cases r) (simp_all add: e Cons.IH)
qed

lemma raised_messages_append:
  "raised_messages exec n (js1 @ js2) w =
     raised_messages exec n js1 w @ raised_messages exec n js2 (world_after exec n js1 w)"
  by (induction js1 arbitrary: w) (auto split: prod.splits option.splits)

text \<open>
  Claim C5.  Let the job channel hold the jobs \<open>js1\<close>, a job \<open>j\<close> whose execution raises
  with message \<open>msg\<close>, the jobs \<open>js2\<close>, and the stop sentinel.  Then the worker terminates
  at the sentinel, having received every message up to it and acknowledged each one (the
  failing job included), having executed all the jobs in order, those after \<open>j\<close> too; the
  error channel has gained exactly the messages of the executions that raised, and
  \<open>msg\<close> is among them unchanged.
\<close>

theorem worker_survives_failing_job:
  assumes "exec j n (world_after exec n js1 (world s)) = (w, Some msg)"
  shows "\<exists>s'. worker_process_main exec n (map Some (js1 @ j # js2) @ None # rest) s
               = Terminated (rest, s')
     \<and> received s' = received s @ map Some (js1 @ j # js2) @ [None]
     \<and> acknowledged s' = acknowledged s + length (js1 @ j # js2) + 1
     \<and> executed s' = executed s @ js1 @ j # js2
     \<and> errors_queue s' = errors_queue s @ raised_messages exec n (js1 @ j # js2) (world s)
     \<and> msg \<in> set (errors_queue s')"
proof -
  let ?js = "js1 @ j # js2"
  let ?s' = "s\<lparr>received := received s @ map Some ?js @ [None],
         acknowledged := acknowledged s + length ?js + 1,
         executed := executed s @ ?js,
         errors_queue := errors_queue s @ raised_messages exec n ?js (world s),
         world := world_after exec n ?js (world s)\<rparr>"
  have m: "msg \<in> set (raised_messages exec n ?js (world s))"
    using assms by (simp add: raised_messages_append)
  have r: "worker_process_main exec n (map Some ?js @ None # rest) s = Terminated (rest, ?s')"
    by (rule worker_run)
  show ?thesis
    by (rule exI [of _ ?s']) (use m r in simp)
qed

text \<open>
  The second run of \<open>test_worker_process_main\<close>: four receives, three executions, four
  acknowledgements, and the one message on the error channel.
\<close>

theorem worker_survives_failing_job_witness:
  "\<exists>s'. worker_process_main execute_mock 0 job_collection idle_worker = Terminated ([], s')
     \<and> length (received s') = 4
     \<and> acknowledged s' = 4
     \<and> executed s' = [(1, ''upload_part''), (2, ''upload_part''), (3, ''upload_part'')]
     \<and> errors_queue s' = [''Something is gone wrong'']"
proof -
  have h: "execute_mock (2, ''upload_part'') 0
             (world_after execute_mock 0 [(1, ''upload_part'')] (world idle_worker))
           = ((), Some ''Something is gone wrong'')"
    by (simp add: execute_mock_def)
  show ?thesis
    using worker_survives_failing_job
      [where exec = execute_mock and j = "(2, ''upload_part'')" and n = 0
        and ?js1.0 = "[(1, ''upload_part'')]" and s = idle_worker and w = "()"
        and msg = "''Something is gone wrong''" and ?js2.0 = "[(3, ''upload_part'')]"
        and rest = "[]", OF h]
    by (auto simp add: job_collection_def idle_worker_def execute_mock_def)
qed

end
